theory Spec2Isabelle
  imports Complex_Main
begin

section \<open>The DRRN training script \<^verbatim>\<open>main.py\<close>\<close>

text \<open>
  A shallow embedding of \<^verbatim>\<open>main.py\<close>: the learning-rate schedule
  (\<^verbatim>\<open>adjust_learning_rate\<close>), the per-epoch loop (\<^verbatim>\<open>train\<close>), the
  checkpoint writer (\<^verbatim>\<open>save_checkpoint\<close>) and the driver (\<^verbatim>\<open>main\<close>).

  Conventions.
  \<^item> Python \<^verbatim>\<open>int\<close> is \<^typ>\<open>int\<close>; \<^verbatim>\<open>//\<close> is floor division, which is
    \<^term>\<open>(div)\<close> on \<^typ>\<open>int\<close>, and raises \<^verbatim>\<open>ZeroDivisionError\<close> on a zero divisor.
  \<^item> Python \<^verbatim>\<open>float\<close> is read as exact rational arithmetic (\<^typ>\<open>rat\<close>): rounding,
    underflow, overflow, infinities and NaN of binary64 are not represented. The
    \<^verbatim>\<open>ZeroDivisionError\<close> of float division by zero is.
  \<^item> An exception is a value \<open>Inl e\<close>; it aborts every enclosing computation.
  \<^item> The network, the loss, autograd, gradient clipping, the SGD step, the data loader and
    \<^verbatim>\<open>torch.cuda.is_available\<close> are opaque collaborators, collected in the record
    \<open>torch\<close>; they are assumed to return normally.
  \<^item> The file system is a map from path strings to unpickled file contents, together with
    the set of existing directories. Paths are compared as strings.
  \<^item> Standard output is a list of lines. A line whose text depends on how Python formats a
    float, a namespace or the wall clock is kept as a structured line carrying the
    formatted values; the wall-clock time of the progress line is left out.
\<close>

subsection \<open>Exceptions and Python arithmetic\<close>

datatype error =
    ZeroDivisionError
  | KeyError string
  | TypeError
  | AttributeError
  | PyException string

type_synonym pyfloat = rat

definition py_floordiv :: "int \<Rightarrow> int \<Rightarrow> error + int" where
  "py_floordiv a b = (if b = 0 then Inl ZeroDivisionError else Inr (a div b))"

definition py_truediv :: "pyfloat \<Rightarrow> pyfloat \<Rightarrow> error + pyfloat" where
  "py_truediv a b = (if b = 0 then Inl ZeroDivisionError else Inr (a / b))"

text \<open>\<^verbatim>\<open>0.5 ** k\<close> for an integer \<open>k\<close> of either sign.\<close>

definition half_pow :: "int \<Rightarrow> pyfloat" where
  "half_pow k = (1 / 2) powi k"

subsection \<open>Decimal rendering of integers (\<^verbatim>\<open>"{}".format(epoch)\<close>)\<close>

definition digit_char :: "nat \<Rightarrow> char" where
  "digit_char d = ''0123456789'' ! d"

fun str_nat :: "nat \<Rightarrow> string" where
  "str_nat n = (if n < 10 then [digit_char n] else str_nat (n div 10) @ [digit_char (n mod 10)])"

declare str_nat.simps [simp del]

definition str_int :: "int \<Rightarrow> string" where
  "str_int i = (if i < 0 then CHR ''-'' # str_nat (nat (- i)) else str_nat (nat i))"

text \<open>Reading a decimal numeral back; used to show that the rendering loses nothing.\<close>

definition nat_of_str :: "string \<Rightarrow> nat" where
  "nat_of_str s = foldl (\<lambda>a c. 10 * a + (of_char c - 48)) 0 s"

subsection \<open>Command-line options (the global \<^verbatim>\<open>opt\<close>)\<close>

record opts =
  batchSize :: int
  nEpochs :: int
  lr :: pyfloat
  step :: int
  cuda :: bool
  resume :: string
  start_epoch :: int
  clip :: pyfloat
  threads :: int
  momentum :: pyfloat
  weight_decay :: pyfloat
  pretrained :: string
  seed :: "int option"

subsection \<open>Collaborators, files and program state\<close>

text \<open>
  Type variables: \<open>'w\<close> the model's parameters (its \<^verbatim>\<open>state_dict\<close>), \<open>'g\<close> their
  gradients, \<open>'m\<close> the optimizer's momentum buffers, \<open>'b\<close> a batch, \<open>'l\<close> a loss value.
  \<open>loader T e\<close> is the sequence of batches that iterating the shuffled
  \<^verbatim>\<open>DataLoader\<close> yields during epoch \<open>e\<close>.
\<close>

record ('w, 'g, 'm, 'b, 'l) torch =
  cuda_is_available :: bool
  DRRN :: 'w
  SGD :: 'm
  loader :: "int \<Rightarrow> 'b list"
  criterion :: "'w \<Rightarrow> 'b \<Rightarrow> 'l"
  zero_grad :: 'g
  backward :: "'w \<Rightarrow> 'b \<Rightarrow> 'g \<Rightarrow> 'g"
  clip_grad_norm :: "pyfloat \<Rightarrow> 'g \<Rightarrow> 'g"
  sgd_step :: "pyfloat \<Rightarrow> pyfloat \<Rightarrow> pyfloat \<Rightarrow> 'w \<Rightarrow> 'g \<Rightarrow> 'm \<Rightarrow> 'w \<times> 'm"

text \<open>A pickled file holds a dictionary with string keys.\<close>

datatype 'w pyval = PyInt int | PyModel 'w

type_synonym 'w pydict = "string \<rightharpoonup> 'w pyval"

definition getitem :: "'w pydict \<Rightarrow> string \<Rightarrow> error + 'w pyval" where
  "getitem d k = (case d k of None \<Rightarrow> Inl (KeyError k) | Some v \<Rightarrow> Inr v)"

datatype 'l line =
    Text string
  | OptLine opts
  | SeedLine int
  | EpochLr int pyfloat
  | Progress int nat nat 'l

record ('w, 'g, 'm, 'l) state =
  weights :: 'w
  grads :: 'g
  training :: bool
  opt_lr :: pyfloat
  opt_buf :: 'm
  files :: "string \<rightharpoonup> 'w pydict"
  dirs :: "string set"
  console :: "'l line list"

subsection \<open>\<^verbatim>\<open>adjust_learning_rate\<close>\<close>

definition adjust_learning_rate :: "opts \<Rightarrow> 'o \<Rightarrow> int \<Rightarrow> error + pyfloat" where
  "adjust_learning_rate opt optimizer epoch =
     (case py_floordiv epoch (step opt) of
        Inl e \<Rightarrow> Inl e
      | Inr k \<Rightarrow> Inr (lr opt * half_pow k))"

subsection \<open>\<^verbatim>\<open>train\<close>\<close>

text \<open>
  The body of \<^verbatim>\<open>for iteration, batch in enumerate(training_data_loader, 1)\<close>; \<open>lr'\<close> is
  the local variable \<^verbatim>\<open>lr\<close> of \<^verbatim>\<open>train\<close> and \<open>len\<close> is
  \<^verbatim>\<open>len(training_data_loader)\<close>.
\<close>

definition train_batch ::
  "('w, 'g, 'm, 'b, 'l) torch \<Rightarrow> opts \<Rightarrow> pyfloat \<Rightarrow> int \<Rightarrow> nat \<Rightarrow> nat \<Rightarrow> 'b \<Rightarrow>
   ('w, 'g, 'm, 'l) state \<Rightarrow> error + ('w, 'g, 'm, 'l) state" where
  "train_batch T opt lr' epoch len iteration batch st =
     (let loss = criterion T (weights st) batch;
          st1 = st\<lparr>grads := zero_grad T\<rparr>;
          st2 = st1\<lparr>grads := backward T (weights st1) batch (grads st1)\<rparr>
      in case py_truediv (clip opt) lr' of
           Inl e \<Rightarrow> Inl e
         | Inr c \<Rightarrow>
            (let st3 = st2\<lparr>grads := clip_grad_norm T c (grads st2)\<rparr>;
                 upd = sgd_step T (opt_lr st3) (momentum opt) (weight_decay opt)
                         (weights st3) (grads st3) (opt_buf st3);
                 st4 = st3\<lparr>weights := fst upd, opt_buf := snd upd\<rparr>
             in if iteration mod 100 = 0
                then Inr (st4\<lparr>console := console st4 @ [Progress epoch iteration len loss]\<rparr>)
                else Inr st4))"

text \<open>The loop itself, with the counter of \<^verbatim>\<open>enumerate\<close>.\<close>

fun train_loop ::
  "('w, 'g, 'm, 'b, 'l) torch \<Rightarrow> opts \<Rightarrow> pyfloat \<Rightarrow> int \<Rightarrow> nat \<Rightarrow> nat \<Rightarrow> 'b list \<Rightarrow>
   ('w, 'g, 'm, 'l) state \<Rightarrow> error + ('w, 'g, 'm, 'l) state" where
  "train_loop T opt lr' epoch len iteration [] st = Inr st"
| "train_loop T opt lr' epoch len iteration (batch # rest) st =
     (case train_batch T opt lr' epoch len iteration batch st of
        Inl e \<Rightarrow> Inl e
      | Inr st1 \<Rightarrow> train_loop T opt lr' epoch len (iteration + 1) rest st1)"

definition train ::
  "('w, 'g, 'm, 'b, 'l) torch \<Rightarrow> opts \<Rightarrow> int \<Rightarrow> ('w, 'g, 'm, 'l) state \<Rightarrow>
   error + ('w, 'g, 'm, 'l) state" where
  "train T opt epoch st =
     (case adjust_learning_rate opt (opt_lr st, opt_buf st) (epoch - 1) of
        Inl e \<Rightarrow> Inl e
      | Inr lr' \<Rightarrow>
         (let st1 = st\<lparr>opt_lr := lr'\<rparr>;
              st2 = st1\<lparr>console := console st1 @ [EpochLr epoch (opt_lr st1)]\<rparr>;
              st3 = st2\<lparr>training := True\<rparr>;
              batches = loader T epoch
          in train_loop T opt lr' epoch (length batches) 1 batches st3))"

subsection \<open>\<^verbatim>\<open>save_checkpoint\<close>\<close>

definition model_out_path :: "int \<Rightarrow> string" where
  "model_out_path epoch = ''model/'' @ (''model_epoch_'' @ str_int epoch @ ''.pth'')"

definition save_checkpoint ::
  "int \<Rightarrow> ('w, 'g, 'm, 'l) state \<Rightarrow> ('w, 'g, 'm, 'l) state" where
  "save_checkpoint epoch st =
     (let path = model_out_path epoch;
          contents = [''epoch'' \<mapsto> PyInt epoch, ''model'' \<mapsto> PyModel (weights st)];
          st1 = (if ''model/'' \<notin> dirs st then st\<lparr>dirs := insert ''model/'' (dirs st)\<rparr> else st);
          st2 = st1\<lparr>files := (files st1)(path \<mapsto> contents)\<rparr>
      in st2\<lparr>console := console st2 @ [Text (''Checkpoint saved to '' @ path)]\<rparr>)"

subsection \<open>\<^verbatim>\<open>main\<close>\<close>

text \<open>
  The two optional loading blocks of \<^verbatim>\<open>main\<close>. Each works on the options, the model's
  parameters and the output so far, and reads the files \<open>fs\<close>.
\<close>

definition load_resume ::
  "(string \<rightharpoonup> 'w pydict) \<Rightarrow> opts \<times> 'w \<times> 'l line list \<Rightarrow> error + opts \<times> 'w \<times> 'l line list" where
  "load_resume fs s =
     (case s of (opt, model, out) \<Rightarrow>
        if resume opt \<noteq> [] then
          (case fs (resume opt) of
             Some checkpoint \<Rightarrow>
               (let out1 = out @ [Text (''===> loading checkpoint: '' @ resume opt)]
                in case getitem checkpoint ''epoch'' of
                     Inl e \<Rightarrow> Inl e
                   | Inr (PyModel _) \<Rightarrow> Inl TypeError
                   | Inr (PyInt n) \<Rightarrow>
                       (let opt1 = opt\<lparr>start_epoch := n + 1\<rparr>
                        in case getitem checkpoint ''model'' of
                             Inl e \<Rightarrow> Inl e
                           | Inr (PyInt _) \<Rightarrow> Inl AttributeError
                           | Inr (PyModel w) \<Rightarrow> Inr (opt1, w, out1)))
           | None \<Rightarrow> Inr (opt, model, out @ [Text (''===> no checkpoint found at '' @ resume opt)]))
        else Inr (opt, model, out))"

definition load_pretrained ::
  "(string \<rightharpoonup> 'w pydict) \<Rightarrow> opts \<times> 'w \<times> 'l line list \<Rightarrow> error + opts \<times> 'w \<times> 'l line list" where
  "load_pretrained fs s =
     (case s of (opt, model, out) \<Rightarrow>
        if pretrained opt \<noteq> [] then
          (case fs (pretrained opt) of
             Some weights' \<Rightarrow>
               (let out1 = out @ [Text (''===> load model '' @ pretrained opt)]
                in case getitem weights' ''model'' of
                     Inl e \<Rightarrow> Inl e
                   | Inr (PyInt _) \<Rightarrow> Inl AttributeError
                   | Inr (PyModel w) \<Rightarrow> Inr (opt, w, out1))
           | None \<Rightarrow> Inr (opt, model, out @ [Text (''===> no model found at '' @ pretrained opt)]))
        else Inr (opt, model, out))"

text \<open>The loop \<^verbatim>\<open>for epoch in range(opt.start_epoch, opt.nEpochs + 1)\<close> over its epochs.\<close>

fun epoch_loop ::
  "('w, 'g, 'm, 'b, 'l) torch \<Rightarrow> opts \<Rightarrow> int list \<Rightarrow> ('w, 'g, 'm, 'l) state \<Rightarrow>
   error + ('w, 'g, 'm, 'l) state" where
  "epoch_loop T opt [] st = Inr st"
| "epoch_loop T opt (epoch # rest) st =
     (case train T opt epoch st of
        Inl e \<Rightarrow> Inl e
      | Inr st1 \<Rightarrow> epoch_loop T opt rest (save_checkpoint epoch st1))"

text \<open>
  Everything of \<^verbatim>\<open>main\<close> before the training loop: the options and the state with which
  the loop is entered. \<open>drawn\<close> is the value of \<^verbatim>\<open>random.randint(1, 10000)\<close>; \<open>fs\<close> and
  \<open>ds\<close> are the files and directories found on disk.
\<close>

definition prologue ::
  "('w, 'g, 'm, 'b, 'l) torch \<Rightarrow> opts \<Rightarrow> int \<Rightarrow> (string \<rightharpoonup> 'w pydict) \<Rightarrow> string set \<Rightarrow>
   error + opts \<times> ('w, 'g, 'm, 'l) state" where
  "prologue T opt0 drawn fs ds =
     (let out0 = [OptLine opt0] in
      if cuda opt0 \<and> \<not> cuda_is_available T
      then Inl (PyException ''No GPU found, please run without --cuda'')
      else
        (let opt1 = opt0\<lparr>seed := Some drawn\<rparr>;
             out1 = out0 @ [SeedLine drawn, Text ''===> Loading datasets'',
                            Text ''===> Building model'', Text ''===> Setting GPU''];
             model = DRRN T
         in case load_resume fs (opt1, model, out1) of
              Inl e \<Rightarrow> Inl e
            | Inr s1 \<Rightarrow>
               (case load_pretrained fs s1 of
                  Inl e \<Rightarrow> Inl e
                | Inr (opt2, model2, out2) \<Rightarrow>
                    Inr (opt2,
                         \<lparr>weights = model2, grads = zero_grad T, training = True,
                          opt_lr = lr opt2, opt_buf = SGD T, files = fs, dirs = ds,
                          console = out2 @ [Text ''===> Setting Optimizer'', Text ''===> Training'']\<rparr>))))"

definition main ::
  "('w, 'g, 'm, 'b, 'l) torch \<Rightarrow> opts \<Rightarrow> int \<Rightarrow> (string \<rightharpoonup> 'w pydict) \<Rightarrow> string set \<Rightarrow>
   error + ('w, 'g, 'm, 'l) state" where
  "main T opt0 drawn fs ds =
     (case prologue T opt0 drawn fs ds of
        Inl e \<Rightarrow> Inl e
      | Inr (opt, st) \<Rightarrow> epoch_loop T opt [start_epoch opt .. nEpochs opt] st)"

subsection \<open>Observations\<close>

text \<open>
  The iteration numbers of the progress lines in an output, in order, and the part of the
  state that training works on: parameters, gradients and the optimizer.
\<close>

fun iterations_logged :: "'l line list \<Rightarrow> nat list" where
  "iterations_logged [] = []"
| "iterations_logged (Progress e i n l # ls) = i # iterations_logged ls"
| "iterations_logged (_ # ls) = iterations_logged ls"

definition training_state :: "('w, 'g, 'm, 'l) state \<Rightarrow> 'w \<times> 'g \<times> pyfloat \<times> 'm" where
  "training_state st = (weights st, grads st, opt_lr st, opt_buf st)"

text \<open>
  The state without the line that prints the drawn seed; it compares runs that differ in
  the seed.
\<close>

fun is_seed_line :: "'l line \<Rightarrow> bool" where
  "is_seed_line (SeedLine d) = True"
| "is_seed_line _ = False"

definition unseeded :: "('w, 'g, 'm, 'l) state \<Rightarrow> ('w, 'g, 'm, 'l) state" where
  "unseeded st = st\<lparr>console := filter (\<lambda>x. \<not> is_seed_line x) (console st)\<rparr>"

text \<open>The options that training reads.\<close>

definition same_hyper :: "opts \<Rightarrow> opts \<Rightarrow> bool" where
  "same_hyper o1 o2 \<longleftrightarrow>
     lr o1 = lr o2 \<and> step o1 = step o2 \<and> clip o1 = clip o2 \<and> momentum o1 = momentum o2
     \<and> weight_decay o1 = weight_decay o2"

text \<open>
  Two states with the same parameters and related momentum buffers, and an SGD step whose
  new parameters are the same for related buffers and whose new buffers are related again.
  With equality as the relation every step qualifies; with the full relation the step must
  not read the buffers at all.
\<close>

definition same_model ::
  "('m \<Rightarrow> 'm \<Rightarrow> bool) \<Rightarrow> ('w, 'g, 'm, 'l) state \<Rightarrow> ('w, 'g, 'm, 'l) state \<Rightarrow> bool" where
  "same_model R st st' \<longleftrightarrow> weights st = weights st' \<and> R (opt_buf st) (opt_buf st')"

definition sgd_respects ::
  "('w, 'g, 'm, 'b, 'l) torch \<Rightarrow> opts \<Rightarrow> ('m \<Rightarrow> 'm \<Rightarrow> bool) \<Rightarrow> bool" where
  "sgd_respects T opt R \<longleftrightarrow>
     (\<forall>l w g m m'. R m m' \<longrightarrow>
        fst (sgd_step T l (momentum opt) (weight_decay opt) w g m) =
        fst (sgd_step T l (momentum opt) (weight_decay opt) w g m')
        \<and> R (snd (sgd_step T l (momentum opt) (weight_decay opt) w g m))
             (snd (sgd_step T l (momentum opt) (weight_decay opt) w g m')))"

subsection \<open>A concrete run\<close>

text \<open>
  The default options of the argument parser and a one-parameter model trained by SGD with
  momentum on scalar batches, with some variations of both, used to evaluate the definitions.
\<close>

definition opt_ex :: opts where
  "opt_ex = \<lparr>batchSize = 128, nEpochs = 50, lr = 1 / 10, step = 5, cuda = False, resume = [],
     start_epoch = 1, clip = 1 / 100, threads = 1, momentum = 9 / 10, weight_decay = 1 / 10000,
     pretrained = [], seed = None\<rparr>"

definition T_ex :: "(rat, rat, rat, rat, rat) torch" where
  "T_ex = \<lparr>cuda_is_available = False, DRRN = 1, SGD = 0,
     loader = (\<lambda>e. [of_int e, 2]),
     criterion = (\<lambda>w b. (w - b) * (w - b)),
     zero_grad = 0,
     backward = (\<lambda>w b g. g + 2 * (w - b)),
     clip_grad_norm = (\<lambda>c g. max (- c) (min c g)),
     sgd_step = (\<lambda>l m wd w g buf. (w - l * (m * buf + g + wd * w), m * buf + g + wd * w))\<rparr>"

definition st_ex :: "(rat, rat, rat, rat) state" where
  "st_ex = \<lparr>weights = 1, grads = 0, training = True, opt_lr = 1 / 10, opt_buf = 0,
     files = Map.empty, dirs = {}, console = []\<rparr>"

definition fs_ex :: "string \<rightharpoonup> rat pydict" where
  "fs_ex = [''ckpt.pth'' \<mapsto> [''epoch'' \<mapsto> PyInt 3, ''model'' \<mapsto> PyModel 5],
            ''pre.pth'' \<mapsto> [''model'' \<mapsto> PyModel 9]]"

definition opt_both :: opts where
  "opt_both = opt_ex\<lparr>resume := ''ckpt.pth'', pretrained := ''pre.pth''\<rparr>"

definition opt_missing :: opts where
  "opt_missing = opt_ex\<lparr>resume := ''gone.pth'', pretrained := ''absent.pth''\<rparr>"

definition T_many :: "(rat, rat, rat, rat, rat) torch" where
  "T_many = T_ex\<lparr>loader := (\<lambda>e. replicate 250 2)\<rparr>"



definition no_files :: "string \<rightharpoonup> rat pydict" where
  "no_files = Map.empty"


definition opt_plain :: opts where
  "opt_plain = opt_ex\<lparr>momentum := 0\<rparr>"

text \<open>
  One epoch, then a second run that resumes from its checkpoint and trains a second epoch.
\<close>

definition interrupted_run :: "opts \<Rightarrow> error + (rat, rat, rat, rat) state" where
  "interrupted_run opt =
     (case main T_ex (opt\<lparr>nEpochs := 1\<rparr>) 1 no_files {} of
        Inl e \<Rightarrow> Inl e
      | Inr stA \<Rightarrow>
          main T_ex (opt\<lparr>nEpochs := 2, resume := model_out_path 1\<rparr>) 2 (files stA) (dirs stA))"

section \<open>Properties\<close>

subsection \<open>Basic facts\<close>

lemma opt_ex_simps:
  "step opt_ex = 5" "lr opt_ex = 1 / 10" "clip opt_ex = 1 / 100" "nEpochs opt_ex = 50"
  "start_epoch opt_ex = 1" "resume opt_ex = []" "pretrained opt_ex = []" "cuda opt_ex = False"
  "momentum opt_ex = 9 / 10" "weight_decay opt_ex = 1 / 10000"
  by (simp_all add: opt_ex_def)

lemma adjust_learning_rate_eq:
  "adjust_learning_rate opt optimizer e =
     (if step opt = 0 then Inl ZeroDivisionError else Inr (lr opt * (1 / 2) powi (e div step opt)))"
  by (simp add: adjust_learning_rate_def py_floordiv_def half_pow_def)

lemma train_batch_zero_lr: "train_batch T opt 0 epoch len it b st = Inl ZeroDivisionError"
  by (simp add: train_batch_def py_truediv_def)

text \<open>One iteration with a non-zero rate, field by field.\<close>

lemma train_batch_fields:
  assumes "l \<noteq> 0"
  shows "\<exists>st'. train_batch T opt l epoch len it b st = Inr st'
    \<and> grads st' = clip_grad_norm T (clip opt / l) (backward T (weights st) b (zero_grad T))
    \<and> weights st' = fst (sgd_step T (opt_lr st) (momentum opt) (weight_decay opt)
                              (weights st) (grads st') (opt_buf st))
    \<and> opt_buf st' = snd (sgd_step T (opt_lr st) (momentum opt) (weight_decay opt)
                              (weights st) (grads st') (opt_buf st))
    \<and> console st' = console st @
           (if it mod 100 = 0 then [Progress epoch it len (criterion T (weights st) b)] else [])
    \<and> opt_lr st' = opt_lr st \<and> files st' = files st \<and> dirs st' = dirs st
    \<and> training st' = training st"
  using assms by (simp add: train_batch_def py_truediv_def Let_def)

lemma train_batch_Inr:
  assumes "train_batch T opt l epoch len it b st = Inr st'"
  shows "l \<noteq> 0"
  using assms by (auto simp: train_batch_zero_lr)


subsection \<open>The learning-rate schedule\<close>



subsection \<open>Decimal rendering and checkpoint paths\<close>

lemma digit_char_cases:
  assumes "d < 10"
  shows "d = 0 \<or> d = 1 \<or> d = 2 \<or> d = 3 \<or> d = 4 \<or> d = 5 \<or> d = 6 \<or> d = 7 \<or> d = 8 \<or> d = (9::nat)"
  using assms by arith

lemma of_char_digit_char: "d < 10 \<Longrightarrow> (of_char (digit_char d) :: nat) - 48 = d"
  using digit_char_cases [of d] by (auto simp: digit_char_def)

lemma digit_char_not_minus: "d < 10 \<Longrightarrow> digit_char d \<noteq> CHR ''-''"
  using digit_char_cases [of d] by (auto simp: digit_char_def)

lemma nat_of_str_snoc: "nat_of_str (s @ [c]) = 10 * nat_of_str s + (of_char c - 48)"
  by (simp add: nat_of_str_def)

lemma nat_of_str_str_nat: "nat_of_str (str_nat n) = n"
proof (induction n rule: str_nat.induct)
  case (1 n)
  show ?case
  proof (cases "n < 10")
    case True
    then show ?thesis
      by (simp add: str_nat.simps [of n] nat_of_str_def of_char_digit_char)
  next
    case False
    with 1 have "nat_of_str (str_nat (n div 10)) = n div 10" by simp
    with False show ?thesis
      by (simp add: str_nat.simps [of n] nat_of_str_snoc of_char_digit_char)
  qed
qed

lemma str_nat_inj: "str_nat m = str_nat n \<Longrightarrow> m = n"
  by (metis nat_of_str_str_nat)

lemma str_nat_no_minus: "CHR ''-'' \<notin> set (str_nat n)"
proof (induction n rule: str_nat.induct)
  case (1 n)
  show ?case
  proof (cases "n < 10")
    case True
    then show ?thesis
      using digit_char_not_minus [of n] by (simp add: str_nat.simps [of n])
  next
    case False
    with 1 have "CHR ''-'' \<notin> set (str_nat (n div 10))" by simp
    with False show ?thesis
      using digit_char_not_minus [of "n mod 10"] by (simp add: str_nat.simps [of n])
  qed
qed

lemma str_int_inj: "str_int i = str_int j \<Longrightarrow> i = j"
proof -
  assume eq: "str_int i = str_int j"
  have neg_pos: False if "a < 0" "\<not> b < 0" "str_int a = str_int b" for a b
  proof -
    from that have "CHR ''-'' # str_nat (nat (- a)) = str_nat (nat b)"
      by (simp add: str_int_def)
    then have "CHR ''-'' \<in> set (str_nat (nat b))"
      by (metis list.set_intros(1))
    then show False by (simp add: str_nat_no_minus)
  qed
  show ?thesis
  proof (cases "i < 0")
    case True
    show ?thesis
    proof (cases "j < 0")
      case jn: True
      with True eq have "nat (- i) = nat (- j)"
        by (auto simp: str_int_def dest: str_nat_inj)
      with True jn show ?thesis by simp
    next
      case False
      with True eq neg_pos show ?thesis by blast
    qed
  next
    case False
    show ?thesis
    proof (cases "j < 0")
      case True
      with False eq neg_pos [of j i] show ?thesis by simp
    next
      case jp: False
      with False eq have "nat i = nat j"
        by (auto simp: str_int_def dest: str_nat_inj)
      with False jp show ?thesis by simp
    qed
  qed
qed

lemma model_out_path_inj: "model_out_path e1 = model_out_path e2 \<Longrightarrow> e1 = e2"
  by (simp add: model_out_path_def str_int_inj)

lemma model_out_path_nonempty: "model_out_path e \<noteq> []"
  by (simp add: model_out_path_def)


subsection \<open>Checkpoints\<close>

lemma files_save_checkpoint:
  "files (save_checkpoint e st) =
     (files st)(model_out_path e \<mapsto> [''epoch'' \<mapsto> PyInt e, ''model'' \<mapsto> PyModel (weights st)])"
  by (simp add: save_checkpoint_def Let_def)

lemma weights_save_checkpoint [simp]: "weights (save_checkpoint e st) = weights st"
  by (simp add: save_checkpoint_def Let_def)

text \<open>
  Claim C4. For every epoch \<open>e\<close> and model state, \<^verbatim>\<open>save_checkpoint\<close> followed by loading
  the written file yields the stored epoch \<open>e\<close> and exactly the weights the model had when it
  was saved (the resume block of \<^verbatim>\<open>main\<close> reads them back and sets the start epoch to
  \<open>e + 1\<close>). The file written is the one named by the epoch and no other; that name is an
  injective function of the epoch, so a save for a different epoch leaves the file intact.
\<close>

theorem C4_checkpoint_roundtrip:
  "(\<exists>d. files (save_checkpoint e st) (model_out_path e) = Some d
        \<and> getitem d ''epoch'' = Inr (PyInt e)
        \<and> getitem d ''model'' = Inr (PyModel (weights st)))
   \<and> load_resume (files (save_checkpoint e st)) (opt\<lparr>resume := model_out_path e\<rparr>, w0, out) =
       Inr (opt\<lparr>resume := model_out_path e, start_epoch := e + 1\<rparr>, weights st,
            out @ [Text (''===> loading checkpoint: '' @ model_out_path e)])
   \<and> (\<forall>p. p \<noteq> model_out_path e \<longrightarrow> files (save_checkpoint e st) p = files st p)
   \<and> (\<forall>e'. model_out_path e' = model_out_path e \<longrightarrow> e' = e)
   \<and> (\<forall>e'. e' \<noteq> e \<longrightarrow>
         files (save_checkpoint e' (save_checkpoint e st)) (model_out_path e) =
         files (save_checkpoint e st) (model_out_path e))"
proof -
  have a: "\<exists>d. files (save_checkpoint e st) (model_out_path e) = Some d
        \<and> getitem d ''epoch'' = Inr (PyInt e)
        \<and> getitem d ''model'' = Inr (PyModel (weights st))"
    by (simp add: files_save_checkpoint getitem_def)
  have b: "load_resume (files (save_checkpoint e st)) (opt\<lparr>resume := model_out_path e\<rparr>, w0, out) =
       Inr (opt\<lparr>resume := model_out_path e, start_epoch := e + 1\<rparr>, weights st,
            out @ [Text (''===> loading checkpoint: '' @ model_out_path e)])"
    by (simp add: load_resume_def files_save_checkpoint getitem_def model_out_path_nonempty Let_def)
  have c: "\<forall>p. p \<noteq> model_out_path e \<longrightarrow> files (save_checkpoint e st) p = files st p"
    by (simp add: files_save_checkpoint)
  have d: "\<forall>e'. model_out_path e' = model_out_path e \<longrightarrow> e' = e"
    by (blast dest: model_out_path_inj)
  have e: "\<forall>e'. e' \<noteq> e \<longrightarrow>
         files (save_checkpoint e' (save_checkpoint e st)) (model_out_path e) =
         files (save_checkpoint e st) (model_out_path e)"
    using d by (auto simp: files_save_checkpoint)
  from a b c d e show ?thesis by blast
qed

lemma model_out_path_7: "model_out_path 7 = ''model/model_epoch_7.pth''"
  by (simp add: model_out_path_def str_int_def str_nat.simps digit_char_def)

theorem C4_checkpoint_roundtrip_witness:
  "(8::int) \<noteq> 7
   \<and> files (save_checkpoint 8 (save_checkpoint 7 st_ex)) (model_out_path 7) =
       files (save_checkpoint 7 st_ex) (model_out_path 7)
   \<and> load_resume (files (save_checkpoint 7 st_ex)) (opt_ex\<lparr>resume := model_out_path 7\<rparr>, 0, []) =
       Inr (opt_ex\<lparr>resume := model_out_path 7, start_epoch := 7 + 1\<rparr>, weights st_ex,
            [] @ [Text (''===> loading checkpoint: '' @ model_out_path 7)])"
proof -
  have h: "(8::int) \<noteq> 7" by simp
  from C4_checkpoint_roundtrip [of 7 st_ex opt_ex 0 "[]"] h show ?thesis
    by blast
qed

subsection \<open>Resuming and pretrained weights\<close>

text \<open>
  Claim C2. If both a resume path and a pretrained path are given and both files exist (the
  first holding an epoch \<open>n\<close> and a model, the second a model), then \<^verbatim>\<open>main\<close> loads the
  resume checkpoint first and the pretrained weights on top of it: training starts with the
  weights of the pretrained file and at epoch \<open>n + 1\<close>.
\<close>

theorem C2_resume_then_pretrained:
  assumes "resume opt0 \<noteq> []" and "pretrained opt0 \<noteq> []"
    and "fs (resume opt0) = Some ck"
    and "getitem ck ''epoch'' = Inr (PyInt n)" and "getitem ck ''model'' = Inr (PyModel wr)"
    and "fs (pretrained opt0) = Some pk" and "getitem pk ''model'' = Inr (PyModel wp)"
    and "\<not> (cuda opt0 \<and> \<not> cuda_is_available T)"
  shows "load_resume fs (opt0, DRRN T, out) =
           Inr (opt0\<lparr>start_epoch := n + 1\<rparr>, wr,
                out @ [Text (''===> loading checkpoint: '' @ resume opt0)])
       \<and> load_pretrained fs (opt0\<lparr>start_epoch := n + 1\<rparr>, wr, out') =
           Inr (opt0\<lparr>start_epoch := n + 1\<rparr>, wp,
                out' @ [Text (''===> load model '' @ pretrained opt0)])
       \<and> (\<exists>opt st. prologue T opt0 drawn fs ds = Inr (opt, st)
             \<and> weights st = wp \<and> start_epoch opt = n + 1 \<and> nEpochs opt = nEpochs opt0
             \<and> main T opt0 drawn fs ds = epoch_loop T opt [n + 1 .. nEpochs opt0] st)"
  using assms
  by (simp add: load_resume_def load_pretrained_def prologue_def main_def Let_def)

theorem C2_resume_then_pretrained_witness:
  "\<exists>opt st. prologue T_ex opt_both 42 fs_ex {} = Inr (opt, st)
      \<and> weights st = 9 \<and> start_epoch opt = 3 + 1 \<and> nEpochs opt = nEpochs opt_both
      \<and> main T_ex opt_both 42 fs_ex {} = epoch_loop T_ex opt [3 + 1 .. nEpochs opt_both] st"
proof -
  have "resume opt_both \<noteq> []" "pretrained opt_both \<noteq> []"
    "fs_ex (resume opt_both) = Some [''epoch'' \<mapsto> PyInt 3, ''model'' \<mapsto> PyModel 5]"
    "getitem [''epoch'' \<mapsto> PyInt 3, ''model'' \<mapsto> PyModel (5::rat)] ''epoch'' = Inr (PyInt 3)"
    "getitem [''epoch'' \<mapsto> PyInt 3, ''model'' \<mapsto> PyModel (5::rat)] ''model'' = Inr (PyModel 5)"
    "fs_ex (pretrained opt_both) = Some [''model'' \<mapsto> PyModel 9]"
    "getitem [''model'' \<mapsto> PyModel (9::rat)] ''model'' = Inr (PyModel 9)"
    "\<not> (cuda opt_both \<and> \<not> cuda_is_available T_ex)"
    by (simp_all add: opt_both_def opt_ex_def fs_ex_def getitem_def)
  from C2_resume_then_pretrained [OF this, of "[]" "[]" 42 "{}"] show ?thesis
    by blast
qed

text \<open>
  Claim C8. If a resume path, or a pretrained path, is given but names no file, nothing is
  raised: the block prints its not-found notice and changes neither the options nor the
  weights. When no given path names a file, training starts at the configured start epoch
  with the freshly built model.
\<close>

theorem C8_missing_files:
  "(resume opt \<noteq> [] \<and> fs (resume opt) = None \<longrightarrow>
      load_resume fs (opt, w, out) =
        Inr (opt, w, out @ [Text (''===> no checkpoint found at '' @ resume opt)]))
   \<and> (pretrained opt \<noteq> [] \<and> fs (pretrained opt) = None \<longrightarrow>
      load_pretrained fs (opt, w, out) =
        Inr (opt, w, out @ [Text (''===> no model found at '' @ pretrained opt)]))
   \<and> ((resume opt \<noteq> [] \<or> pretrained opt \<noteq> [])
        \<and> (resume opt = [] \<or> fs (resume opt) = None)
        \<and> (pretrained opt = [] \<or> fs (pretrained opt) = None)
        \<and> \<not> (cuda opt \<and> \<not> cuda_is_available T) \<longrightarrow>
      (\<exists>st. prologue T opt drawn fs ds = Inr (opt\<lparr>seed := Some drawn\<rparr>, st)
          \<and> weights st = DRRN T
          \<and> (Text (''===> no checkpoint found at '' @ resume opt) \<in> set (console st)
               \<or> Text (''===> no model found at '' @ pretrained opt) \<in> set (console st))
          \<and> main T opt drawn fs ds =
              epoch_loop T (opt\<lparr>seed := Some drawn\<rparr>) [start_epoch opt .. nEpochs opt] st))"
  by (auto simp: load_resume_def load_pretrained_def prologue_def main_def Let_def)

theorem C8_missing_files_witness:
  "\<exists>st. prologue T_ex opt_missing 42 fs_ex {} = Inr (opt_missing\<lparr>seed := Some 42\<rparr>, st)
      \<and> weights st = DRRN T_ex
      \<and> main T_ex opt_missing 42 fs_ex {} =
          epoch_loop T_ex (opt_missing\<lparr>seed := Some 42\<rparr>) [start_epoch opt_missing .. nEpochs opt_missing] st"
proof -
  have "(resume opt_missing \<noteq> [] \<or> pretrained opt_missing \<noteq> [])
        \<and> (resume opt_missing = [] \<or> fs_ex (resume opt_missing) = None)
        \<and> (pretrained opt_missing = [] \<or> fs_ex (pretrained opt_missing) = None)
        \<and> \<not> (cuda opt_missing \<and> \<not> cuda_is_available T_ex)"
    by (simp add: opt_missing_def opt_ex_def fs_ex_def)
  with C8_missing_files [of opt_missing fs_ex _ _ T_ex 42 "{}"] show ?thesis
    by blast
qed

subsection \<open>The batch loop\<close>

lemma iterations_logged_append:
  "iterations_logged (xs @ ys) = iterations_logged xs @ iterations_logged ys"
  by (induction xs rule: iterations_logged.induct) simp_all

lemma train_loop_zero_lr:
  "train_loop T opt 0 epoch len it (b # bs) st = Inl ZeroDivisionError"
  by (simp add: train_batch_zero_lr)

lemma train_loop_ConsE:
  assumes "train_loop T opt l epoch len it (b # bs) st = Inr st'"
  obtains st1 where "l \<noteq> 0"
    and "train_batch T opt l epoch len it b st = Inr st1"
    and "train_loop T opt l epoch len (Suc it) bs st1 = Inr st'"
proof -
  from assms obtain st1 where st1: "train_batch T opt l epoch len it b st = Inr st1"
    and rest: "train_loop T opt l epoch len (Suc it) bs st1 = Inr st'"
    by (auto split: sum.splits)
  from st1 have "l \<noteq> 0" by (rule train_batch_Inr)
  with st1 rest that show thesis by blast
qed

lemma train_loop_returns:
  "l \<noteq> 0 \<Longrightarrow> \<exists>st'. train_loop T opt l epoch len it bs st = Inr st'"
proof (induction bs arbitrary: it st)
  case Nil
  then show ?case by simp
next
  case (Cons b bs)
  from train_batch_fields [OF Cons.prems, of T opt epoch len it b st]
  obtain st1 where "train_batch T opt l epoch len it b st = Inr st1" by blast
  with Cons.IH [OF Cons.prems, of "it + 1" st1] show ?case by simp
qed

lemma train_loop_files:
  "train_loop T opt l epoch len it bs st = Inr st' \<Longrightarrow>
   files st' = files st \<and> dirs st' = dirs st \<and> training st' = training st"
proof (induction bs arbitrary: it st)
  case Nil
  then show ?case by simp
next
  case (Cons b bs)
  from Cons.prems obtain st1 where l: "l \<noteq> 0"
    and st1: "train_batch T opt l epoch len it b st = Inr st1"
    and rest: "train_loop T opt l epoch len (Suc it) bs st1 = Inr st'"
    by (rule train_loop_ConsE)
  from train_batch_fields [OF l, of T opt epoch len it b st] st1
  have "files st1 = files st \<and> dirs st1 = dirs st \<and> training st1 = training st" by auto
  with Cons.IH [OF rest] show ?case by simp
qed

lemma train_loop_console:
  "train_loop T opt l epoch len it bs st = Inr st' \<Longrightarrow>
   \<exists>new. console st' = console st @ new
     \<and> (\<forall>x \<in> set new. \<exists>i v. x = Progress epoch i len v)
     \<and> iterations_logged new = filter (\<lambda>i. i mod 100 = 0) [it ..< it + length bs]"
proof (induction bs arbitrary: it st)
  case Nil
  then show ?case by simp
next
  case (Cons b bs)
  from Cons.prems obtain st1 where l: "l \<noteq> 0"
    and st1: "train_batch T opt l epoch len it b st = Inr st1"
    and rest: "train_loop T opt l epoch len (Suc it) bs st1 = Inr st'"
    by (rule train_loop_ConsE)
  let ?mid = "if it mod 100 = 0 then [Progress epoch it len (criterion T (weights st) b)] else []"
  from train_batch_fields [OF l, of T opt epoch len it b st] st1
  have mid: "console st1 = console st @ ?mid" by auto
  from Cons.IH [OF rest] obtain new where new: "console st' = console st1 @ new"
      "\<forall>x \<in> set new. \<exists>i v. x = Progress epoch i len v"
      "iterations_logged new = filter (\<lambda>i. i mod 100 = 0) [Suc it ..< Suc it + length bs]"
    by blast
  have upt: "[it ..< it + length (b # bs)] = it # [Suc it ..< Suc it + length bs]"
    using upt_conv_Cons [of it "it + length (b # bs)"] by simp
  have "console st' = console st @ (?mid @ new)"
    using new(1) mid by simp
  moreover have "\<forall>x \<in> set (?mid @ new). \<exists>i v. x = Progress epoch i len v"
    using new(2) by auto
  moreover have "iterations_logged (?mid @ new) =
      filter (\<lambda>i. i mod 100 = 0) [it ..< it + length (b # bs)]"
    unfolding upt using new(3) by (simp add: iterations_logged_append)
  ultimately show ?case by blast
qed

lemma train_batch_training_state:
  assumes "training_state st = training_state st'"
  shows "map_sum id training_state (train_batch T opt l epoch len it b st) =
         map_sum id training_state (train_batch T opt l epoch len it' b st')"
proof (cases "l = 0")
  case True
  then show ?thesis by (simp add: train_batch_zero_lr)
next
  case False
  from train_batch_fields [OF False, of T opt epoch len it b st]
    train_batch_fields [OF False, of T opt epoch len it' b st'] assms
  show ?thesis by (auto simp: training_state_def)
qed

lemma train_loop_training_state:
  "training_state st = training_state st' \<Longrightarrow>
   map_sum id training_state (train_loop T opt l epoch len it bs st) =
   map_sum id training_state (train_loop T opt l epoch len it' bs st')"
proof (induction bs arbitrary: it it' st st')
  case Nil
  then show ?case by simp
next
  case (Cons b bs)
  note step = train_batch_training_state [OF Cons.prems, of T opt l epoch len it b it']
  show ?case
  proof (cases "train_batch T opt l epoch len it b st")
    case (Inl e)
    with step have "train_batch T opt l epoch len it' b st' = Inl e"
      by (cases "train_batch T opt l epoch len it' b st'") simp_all
    with Inl show ?thesis by simp
  next
    case (Inr s1)
    with step obtain s1' where s1': "train_batch T opt l epoch len it' b st' = Inr s1'"
      and eq: "training_state s1 = training_state s1'"
      by (cases "train_batch T opt l epoch len it' b st'") simp_all
    from Cons.IH [OF eq, of "Suc it" "Suc it'"] Inr s1' show ?thesis by simp
  qed
qed




lemma train_zero_step: "step opt = 0 \<Longrightarrow> train T opt epoch st = Inl ZeroDivisionError"
  by (simp add: train_def adjust_learning_rate_eq)

lemma train_eq:
  "step opt \<noteq> 0 \<Longrightarrow>
   train T opt epoch st =
     train_loop T opt (lr opt * (1 / 2) powi ((epoch - 1) div step opt)) epoch
       (length (loader T epoch)) 1 (loader T epoch)
       (st\<lparr>opt_lr := lr opt * (1 / 2) powi ((epoch - 1) div step opt),
           console := console st @ [EpochLr epoch (lr opt * (1 / 2) powi ((epoch - 1) div step opt))],
           training := True\<rparr>)"
  by (simp add: train_def adjust_learning_rate_eq Let_def)

lemma train_Inr_step: "train T opt epoch st = Inr st' \<Longrightarrow> step opt \<noteq> 0"
  by (auto simp: train_zero_step)

lemma half_powi_nonzero: "lr0 \<noteq> 0 \<Longrightarrow> lr0 * (1 / 2) powi k \<noteq> (0::rat)"
  by simp

lemma train_returns:
  assumes "step opt \<noteq> 0" and "lr opt \<noteq> 0 \<or> loader T epoch = []"
  shows "\<exists>st'. train T opt epoch st = Inr st'"
proof (cases "loader T epoch = []")
  case True
  with assms(1) show ?thesis by (simp add: train_eq)
next
  case False
  with assms(2) have "lr opt * (1 / 2) powi ((epoch - 1) div step opt) \<noteq> 0"
    by (simp add: half_powi_nonzero)
  from train_loop_returns [OF this] show ?thesis
    unfolding train_eq [OF assms(1)] by blast
qed

text \<open>
  Claim C5. Within every epoch the iteration counter starts at 1, and a progress line is
  printed exactly at the iterations that are multiples of 100 (100, 200, ...), never at 0 and
  never at another index; this holds for each call of \<^verbatim>\<open>train\<close>, so the counter
  starts again at 1 in every epoch. Printing has no effect on the training state: the
  parameters, gradients and optimizer after the batches do not depend on what has been
  printed, nor on the value of the counter that decides whether a line is printed.
\<close>

theorem C5_progress_lines:
  assumes "train T opt epoch st = Inr st'"
  shows "(\<exists>l new. console st' = console st @ EpochLr epoch l # new
            \<and> (\<forall>x \<in> set new. \<exists>i v. x = Progress epoch i (length (loader T epoch)) v)
            \<and> iterations_logged new =
                filter (\<lambda>i. i mod 100 = 0) [1 ..< Suc (length (loader T epoch))])
       \<and> (\<forall>i \<in> set (iterations_logged (console st')) - set (iterations_logged (console st)).
             1 \<le> i \<and> i \<le> length (loader T epoch) \<and> 100 dvd i)
       \<and> (\<forall>c. map_sum id training_state (train T opt epoch (st\<lparr>console := c\<rparr>)) =
                map_sum id training_state (train T opt epoch st))
       \<and> (\<forall>l n it it' bs s. map_sum id training_state (train_loop T opt l epoch n it bs s) =
                map_sum id training_state (train_loop T opt l epoch n it' bs s))"
proof -
  from assms have step: "step opt \<noteq> 0" by (rule train_Inr_step)
  let ?l = "lr opt * (1 / 2) powi ((epoch - 1) div step opt)"
  let ?bs = "loader T epoch"
  from assms train_loop_console [of T opt ?l epoch "length ?bs" 1 ?bs _ st']
  obtain new where new: "console st' = (console st @ [EpochLr epoch ?l]) @ new"
    "\<forall>x \<in> set new. \<exists>i v. x = Progress epoch i (length ?bs) v"
    "iterations_logged new = filter (\<lambda>i. i mod 100 = 0) [1 ..< 1 + length ?bs]"
    unfolding train_eq [OF step] by fastforce
  have a: "\<exists>l new. console st' = console st @ EpochLr epoch l # new
            \<and> (\<forall>x \<in> set new. \<exists>i v. x = Progress epoch i (length ?bs) v)
            \<and> iterations_logged new = filter (\<lambda>i. i mod 100 = 0) [1 ..< Suc (length ?bs)]"
    using new by auto
  have "iterations_logged (console st') =
        iterations_logged (console st) @ filter (\<lambda>i. i mod 100 = 0) [1 ..< Suc (length ?bs)]"
    using new(1,3) by (simp add: iterations_logged_append)
  then have b: "\<forall>i \<in> set (iterations_logged (console st')) - set (iterations_logged (console st)).
             1 \<le> i \<and> i \<le> length ?bs \<and> 100 dvd i"
    by auto
  have c: "\<forall>c. map_sum id training_state (train T opt epoch (st\<lparr>console := c\<rparr>)) =
                map_sum id training_state (train T opt epoch st)"
    unfolding train_eq [OF step]
    by (intro allI train_loop_training_state) (simp add: training_state_def)
  have d: "\<forall>l n it it' bs s. map_sum id training_state (train_loop T opt l epoch n it bs s) =
                map_sum id training_state (train_loop T opt l epoch n it' bs s)"
    by (intro allI train_loop_training_state) simp
  from a b c d show ?thesis by blast
qed

theorem C5_progress_lines_witness:
  "\<exists>st'. train T_many opt_ex 1 st_ex = Inr st'
     \<and> (\<exists>l new. console st' = console st_ex @ EpochLr 1 l # new
            \<and> iterations_logged new = [100, 200])"
proof -
  have "step opt_ex \<noteq> 0" "lr opt_ex \<noteq> 0 \<or> loader T_many 1 = []"
    by (simp_all add: opt_ex_simps)
  from train_returns [OF this] obtain st' where st': "train T_many opt_ex 1 st_ex = Inr st'"
    by blast
  have len: "length (loader T_many 1) = 250"
    by (simp add: T_many_def)
  have "filter (\<lambda>i. i mod 100 = 0) [1 ..< Suc 250] = [100, 200::nat]"
    by code_simp
  with C5_progress_lines [OF st'] st' len show ?thesis
    by auto
qed






lemma save_checkpoint_fields [simp]:
  "grads (save_checkpoint e st) = grads st"
  "opt_buf (save_checkpoint e st) = opt_buf st"
  "opt_lr (save_checkpoint e st) = opt_lr st"
  "training (save_checkpoint e st) = training st"
  "dirs (save_checkpoint e st) = insert ''model/'' (dirs st)"
  "console (save_checkpoint e st) = console st @ [Text (''Checkpoint saved to '' @ model_out_path e)]"
  by (auto simp: save_checkpoint_def Let_def)











subsection \<open>What training reads of the options\<close>

lemma train_batch_same_hyper:
  assumes "same_hyper o1 o2"
  shows "train_batch T o1 l e n it b st = train_batch T o2 l e n it b st"
proof -
  from assms have "clip o1 = clip o2" "momentum o1 = momentum o2"
    "weight_decay o1 = weight_decay o2"
    by (simp_all add: same_hyper_def)
  then show ?thesis
    unfolding train_batch_def by (simp only:)
qed

lemma train_loop_same_hyper:
  "same_hyper o1 o2 \<Longrightarrow> train_loop T o1 l e n it bs st = train_loop T o2 l e n it bs st"
  by (induction bs arbitrary: it st) (simp_all add: train_batch_same_hyper split: sum.splits)

lemma train_same_hyper:
  assumes "same_hyper o1 o2"
  shows "train T o1 e st = train T o2 e st"
proof -
  from assms have "lr o1 = lr o2" "step o1 = step o2"
    by (simp_all add: same_hyper_def)
  then have "adjust_learning_rate o1 (opt_lr st, opt_buf st) (e - 1) =
             adjust_learning_rate o2 (opt_lr st, opt_buf st) (e - 1)"
    by (simp add: adjust_learning_rate_eq)
  then show ?thesis
    unfolding train_def
    by (simp add: train_loop_same_hyper [OF assms] Let_def split: sum.splits)
qed

lemma epoch_loop_same_hyper:
  "same_hyper o1 o2 \<Longrightarrow> epoch_loop T o1 es st = epoch_loop T o2 es st"
  by (induction es arbitrary: st) (simp_all add: train_same_hyper [of o1 o2] split: sum.splits)

subsection \<open>The drawn seed\<close>

lemma unseeded_eq_iff:
  "unseeded st = unseeded st' \<longleftrightarrow>
     weights st = weights st' \<and> grads st = grads st' \<and> training st = training st'
     \<and> opt_lr st = opt_lr st' \<and> opt_buf st = opt_buf st' \<and> files st = files st'
     \<and> dirs st = dirs st'
     \<and> filter (\<lambda>x. \<not> is_seed_line x) (console st) = filter (\<lambda>x. \<not> is_seed_line x) (console st')"
  by (cases st; cases st') (auto simp: unseeded_def)

lemma train_batch_unseeded:
  assumes "unseeded st = unseeded st'"
  shows "map_sum id unseeded (train_batch T opt l e n it b st) =
         map_sum id unseeded (train_batch T opt l e n it b st')"
proof (cases "l = 0")
  case True
  then show ?thesis by (simp add: train_batch_zero_lr)
next
  case False
  from train_batch_fields [OF False, of T opt e n it b st]
  obtain s1 where s1: "train_batch T opt l e n it b st = Inr s1"
    "grads s1 = clip_grad_norm T (clip opt / l) (backward T (weights st) b (zero_grad T))"
    "weights s1 = fst (sgd_step T (opt_lr st) (momentum opt) (weight_decay opt)
                              (weights st) (grads s1) (opt_buf st))"
    "opt_buf s1 = snd (sgd_step T (opt_lr st) (momentum opt) (weight_decay opt)
                              (weights st) (grads s1) (opt_buf st))"
    "console s1 = console st @
           (if it mod 100 = 0 then [Progress e it n (criterion T (weights st) b)] else [])"
    "opt_lr s1 = opt_lr st" "files s1 = files st" "dirs s1 = dirs st"
    "training s1 = training st"
    by blast
  from train_batch_fields [OF False, of T opt e n it b st']
  obtain s2 where s2: "train_batch T opt l e n it b st' = Inr s2"
    "grads s2 = clip_grad_norm T (clip opt / l) (backward T (weights st') b (zero_grad T))"
    "weights s2 = fst (sgd_step T (opt_lr st') (momentum opt) (weight_decay opt)
                              (weights st') (grads s2) (opt_buf st'))"
    "opt_buf s2 = snd (sgd_step T (opt_lr st') (momentum opt) (weight_decay opt)
                              (weights st') (grads s2) (opt_buf st'))"
    "console s2 = console st' @
           (if it mod 100 = 0 then [Progress e it n (criterion T (weights st') b)] else [])"
    "opt_lr s2 = opt_lr st'" "files s2 = files st'" "dirs s2 = dirs st'"
    "training s2 = training st'"
    by blast
  from assms have "unseeded s1 = unseeded s2"
    unfolding unseeded_eq_iff s1 s2 by simp
  with s1(1) s2(1) show ?thesis by simp
qed

lemma train_loop_unseeded:
  "unseeded st = unseeded st' \<Longrightarrow>
   map_sum id unseeded (train_loop T opt l e n it bs st) =
   map_sum id unseeded (train_loop T opt l e n it bs st')"
proof (induction bs arbitrary: it st st')
  case Nil
  then show ?case by simp
next
  case (Cons b bs)
  note step = train_batch_unseeded [OF Cons.prems, of T opt l e n it b]
  show ?case
  proof (cases "train_batch T opt l e n it b st")
    case (Inl err)
    with step have "train_batch T opt l e n it b st' = Inl err"
      by (cases "train_batch T opt l e n it b st'") simp_all
    with Inl show ?thesis by simp
  next
    case (Inr s1)
    with step obtain s1' where s1': "train_batch T opt l e n it b st' = Inr s1'"
      and eq: "unseeded s1 = unseeded s1'"
      by (cases "train_batch T opt l e n it b st'") simp_all
    from Cons.IH [OF eq, of "Suc it"] Inr s1' show ?thesis by simp
  qed
qed

lemma train_unseeded:
  assumes "unseeded st = unseeded st'"
  shows "map_sum id unseeded (train T opt e st) = map_sum id unseeded (train T opt e st')"
proof (cases "step opt = 0")
  case True
  then show ?thesis by (simp add: train_zero_step)
next
  case False
  show ?thesis
    unfolding train_eq [OF False]
    by (rule train_loop_unseeded) (use assms in \<open>simp add: unseeded_eq_iff\<close>)
qed

lemma save_checkpoint_unseeded:
  "unseeded st = unseeded st' \<Longrightarrow>
   unseeded (save_checkpoint e st) = unseeded (save_checkpoint e st')"
  by (simp add: unseeded_eq_iff files_save_checkpoint)

lemma epoch_loop_unseeded:
  "unseeded st = unseeded st' \<Longrightarrow>
   map_sum id unseeded (epoch_loop T opt es st) = map_sum id unseeded (epoch_loop T opt es st')"
proof (induction es arbitrary: st st')
  case Nil
  then show ?case by simp
next
  case (Cons e es)
  note step = train_unseeded [OF Cons.prems, of T opt e]
  show ?case
  proof (cases "train T opt e st")
    case (Inl err)
    with step have "train T opt e st' = Inl err"
      by (cases "train T opt e st'") simp_all
    with Inl show ?thesis by simp
  next
    case (Inr s1)
    with step obtain s1' where s1': "train T opt e st' = Inr s1'"
      and eq: "unseeded s1 = unseeded s1'"
      by (cases "train T opt e st'") simp_all
    from Cons.IH [OF save_checkpoint_unseeded [OF eq]] Inr s1' show ?thesis by simp
  qed
qed

lemma load_resume_natural:
  "load_resume fs (opt\<lparr>seed := s\<rparr>, w, pre @ out) =
   map_sum id (\<lambda>(opt', w', out'). (opt'\<lparr>seed := s\<rparr>, w', pre @ out'))
     (load_resume fs (opt, w, out))"
proof (cases "resume opt = []")
  case True
  then show ?thesis by (simp add: load_resume_def)
next
  case False
  show ?thesis
  proof (cases "fs (resume opt)")
    case None
    with False show ?thesis by (simp add: load_resume_def)
  next
    case (Some ck)
    show ?thesis
    proof (cases "getitem ck ''epoch''")
      case (Inl err)
      with False Some show ?thesis by (simp add: load_resume_def)
    next
      case (Inr v)
      show ?thesis
      proof (cases v)
        case (PyModel m)
        with False Some Inr show ?thesis by (simp add: load_resume_def)
      next
        case (PyInt n)
        show ?thesis
        proof (cases "getitem ck ''model''")
          case (Inl err)
          with False Some Inr PyInt show ?thesis by (simp add: load_resume_def)
        next
          case r: (Inr v')
          with False Some Inr PyInt show ?thesis
            by (cases v') (simp_all add: load_resume_def)
        qed
      qed
    qed
  qed
qed

lemma load_pretrained_natural:
  "load_pretrained fs (opt\<lparr>seed := s\<rparr>, w, pre @ out) =
   map_sum id (\<lambda>(opt', w', out'). (opt'\<lparr>seed := s\<rparr>, w', pre @ out'))
     (load_pretrained fs (opt, w, out))"
proof (cases "pretrained opt = []")
  case True
  then show ?thesis by (simp add: load_pretrained_def)
next
  case False
  show ?thesis
  proof (cases "fs (pretrained opt)")
    case None
    with False show ?thesis by (simp add: load_pretrained_def)
  next
    case (Some pk)
    show ?thesis
    proof (cases "getitem pk ''model''")
      case (Inl err)
      with False Some show ?thesis by (simp add: load_pretrained_def)
    next
      case (Inr v)
      with False Some show ?thesis
        by (cases v) (simp_all add: load_pretrained_def)
    qed
  qed
qed

lemma load_pretrained_natural2:
  "load_pretrained fs (opt\<lparr>seed := s\<rparr>, w, a # b # out) =
   map_sum id (\<lambda>(opt', w', out'). (opt'\<lparr>seed := s\<rparr>, w', a # b # out'))
     (load_pretrained fs (opt, w, out))"
  using load_pretrained_natural [where fs = fs and opt = opt and s = s and w = w and pre = "[a, b]" and out = out] by simp

text \<open>The two loading blocks in sequence, without the seed and the lines printed before.\<close>

lemma prologue_form:
  fixes T :: "('w, 'g, 'm, 'b, 'l) torch"
  shows "prologue T opt0 d fs ds =
    (if cuda opt0 \<and> \<not> cuda_is_available T
     then Inl (PyException ''No GPU found, please run without --cuda'')
     else map_sum id
       (\<lambda>(opt, w, out). (opt\<lparr>seed := Some d\<rparr>,
          \<lparr>weights = w, grads = zero_grad T, training = True, opt_lr = lr opt,
           opt_buf = SGD T, files = fs, dirs = ds,
           console = [OptLine opt0, SeedLine d] @ out @
             [Text ''===> Setting Optimizer'', Text ''===> Training'']\<rparr>))
       (case load_resume fs (opt0, DRRN T, [Text ''===> Loading datasets'',
               Text ''===> Building model'', Text ''===> Setting GPU'']) of
          Inl e \<Rightarrow> Inl e
        | Inr s1 \<Rightarrow> load_pretrained fs s1))"
proof (cases "cuda opt0 \<and> \<not> cuda_is_available T")
  case True
  then show ?thesis by (simp add: prologue_def)
next
  case False
  let ?rest = "[Text ''===> Loading datasets'', Text ''===> Building model'',
                Text ''===> Setting GPU''] :: 'l line list"
  let ?pre = "[OptLine opt0, SeedLine d] :: 'l line list"
  from False have nogpu: "(cuda opt0 \<and> \<not> cuda_is_available T) = False" by simp
  have unfold: "prologue T opt0 d fs ds =
      (case load_resume fs (opt0\<lparr>seed := Some d\<rparr>, DRRN T, ?pre @ ?rest) of
         Inl e \<Rightarrow> Inl e
       | Inr s1 \<Rightarrow>
          (case load_pretrained fs s1 of
             Inl e \<Rightarrow> Inl e
           | Inr (opt2, model2, out2) \<Rightarrow>
               Inr (opt2,
                    \<lparr>weights = model2, grads = zero_grad T, training = True,
                     opt_lr = lr opt2, opt_buf = SGD T, files = fs, dirs = ds,
                     console = out2 @ [Text ''===> Setting Optimizer'', Text ''===> Training'']\<rparr>)))"
    unfolding prologue_def Let_def nogpu by simp
  show ?thesis
  proof (cases "load_resume fs (opt0, DRRN T, ?rest)")
    case (Inl err)
    with nogpu show ?thesis
      unfolding unfold load_resume_natural by auto
  next
    case (Inr s1)
    obtain o1 w1 out1 where s1: "s1 = (o1, w1, out1)" by (cases s1)
    show ?thesis
    proof (cases "load_pretrained fs (o1, w1, out1)")
      case pl: (Inl err)
      with nogpu Inr s1 show ?thesis
        unfolding unfold load_resume_natural by (auto simp: load_pretrained_natural2)
    next
      case pr: (Inr s2)
      obtain o2 w2 out2 where s2: "s2 = (o2, w2, out2)" by (cases s2)
      with nogpu Inr s1 pr show ?thesis
        unfolding unfold load_resume_natural by (auto simp: load_pretrained_natural2)
    qed
  qed
qed

lemma load_resume_out:
  assumes "load_resume fs (opt, w, out) = Inr (opt', w', out')"
  shows "\<exists>ts. out' = out @ map Text ts"
proof (cases "resume opt = []")
  case True
  with assms have "out' = out @ map Text []" by (auto simp: load_resume_def)
  then show ?thesis by blast
next
  case False
  show ?thesis
  proof (cases "fs (resume opt)")
    case None
    with False assms have "out' = out @ map Text [''===> no checkpoint found at '' @ resume opt]"
      by (auto simp: load_resume_def)
    then show ?thesis by blast
  next
    case (Some ck)
    with False assms have "out' = out @ map Text [''===> loading checkpoint: '' @ resume opt]"
      by (auto simp: load_resume_def Let_def split: sum.splits pyval.splits)
    then show ?thesis by blast
  qed
qed

lemma load_pretrained_out:
  assumes "load_pretrained fs (opt, w, out) = Inr (opt', w', out')"
  shows "\<exists>ts. out' = out @ map Text ts"
proof (cases "pretrained opt = []")
  case True
  with assms have "out' = out @ map Text []" by (auto simp: load_pretrained_def)
  then show ?thesis by blast
next
  case False
  show ?thesis
  proof (cases "fs (pretrained opt)")
    case None
    with False assms have "out' = out @ map Text [''===> no model found at '' @ pretrained opt]"
      by (auto simp: load_pretrained_def)
    then show ?thesis by blast
  next
    case (Some ck)
    with False assms have "out' = out @ map Text [''===> load model '' @ pretrained opt]"
      by (auto simp: load_pretrained_def Let_def split: sum.splits pyval.splits)
    then show ?thesis by blast
  qed
qed

lemma filter_seed_Text: "filter is_seed_line (map Text ts) = []"
  by (induction ts) simp_all

lemma train_loop_seed_lines:
  assumes "train_loop T opt l e n it bs st = Inr st'"
  shows "filter is_seed_line (console st') = filter is_seed_line (console st)"
proof -
  from train_loop_console [OF assms] obtain new where
    new: "console st' = console st @ new" "\<forall>x \<in> set new. \<exists>i v. x = Progress e i n v"
    by blast
  from new(2) have "filter is_seed_line new = []"
    by (auto simp: filter_empty_conv)
  with new(1) show ?thesis by simp
qed

lemma train_seed_lines:
  assumes "train T opt e st = Inr st'"
  shows "filter is_seed_line (console st') = filter is_seed_line (console st)"
proof -
  from assms have step: "step opt \<noteq> 0" by (rule train_Inr_step)
  from assms train_loop_seed_lines show ?thesis
    unfolding train_eq [OF step] by fastforce
qed

lemma epoch_loop_seed_lines:
  "epoch_loop T opt es st = Inr st' \<Longrightarrow>
   filter is_seed_line (console st') = filter is_seed_line (console st)"
proof (induction es arbitrary: st)
  case Nil
  then show ?case by simp
next
  case (Cons e es)
  from Cons.prems obtain s1 where s1: "train T opt e st = Inr s1"
    and rest: "epoch_loop T opt es (save_checkpoint e s1) = Inr st'"
    by (auto split: sum.splits)
  from Cons.IH [OF rest] train_seed_lines [OF s1] show ?case by simp
qed

text \<open>What \<^verbatim>\<open>main\<close> does with the drawn seed, in one equation.\<close>

lemma main_form:
  fixes T :: "('w, 'g, 'm, 'b, 'l) torch"
  shows "main T opt0 d fs ds =
    (if cuda opt0 \<and> \<not> cuda_is_available T
     then Inl (PyException ''No GPU found, please run without --cuda'')
     else case (case load_resume fs (opt0, DRRN T, [Text ''===> Loading datasets'',
                       Text ''===> Building model'', Text ''===> Setting GPU'']) of
                  Inl e \<Rightarrow> Inl e
                | Inr s1 \<Rightarrow> load_pretrained fs s1) of
            Inl e \<Rightarrow> Inl e
          | Inr (opt, w, out) \<Rightarrow>
              epoch_loop T opt [start_epoch opt .. nEpochs opt]
                \<lparr>weights = w, grads = zero_grad T, training = True, opt_lr = lr opt,
                 opt_buf = SGD T, files = fs, dirs = ds,
                 console = [OptLine opt0, SeedLine d] @ out @
                   [Text ''===> Setting Optimizer'', Text ''===> Training'']\<rparr>)"
proof -
  have hyper: "epoch_loop T (opt\<lparr>seed := Some d\<rparr>) es st = epoch_loop T opt es st"
    for opt es and st :: "('w, 'g, 'm, 'l) state"
    by (rule epoch_loop_same_hyper) (simp add: same_hyper_def)
  show ?thesis
    unfolding main_def prologue_form
    by (auto simp: hyper split: sum.splits)
qed

lemma loads_out:
  assumes "(case load_resume fs (opt0, w0, out0) of
              Inl e \<Rightarrow> Inl e
            | Inr s1 \<Rightarrow> load_pretrained fs s1) = Inr (opt, w, out)"
  shows "filter is_seed_line out = filter is_seed_line out0"
proof -
  from assms obtain o1 w1 out1 where r: "load_resume fs (opt0, w0, out0) = Inr (o1, w1, out1)"
    and p: "load_pretrained fs (o1, w1, out1) = Inr (opt, w, out)"
    by (cases "load_resume fs (opt0, w0, out0)") auto
  from load_resume_out [OF r] load_pretrained_out [OF p] show ?thesis
    by (auto simp: filter_seed_Text)
qed

text \<open>
  Claim C9. Two executions that differ only in the value drawn for the seed (same options,
  files, data and collaborators) compute the same thing: they fail with the same exception,
  or they end with the same parameters, gradients, learning rate, optimizer state and files,
  and with the same output apart from the one line that prints the seed. That line is the
  only trace of the seed: it is stored in the options, printed once, and read by nothing.
\<close>

theorem C9_seed_unused:
  fixes T :: "('w, 'g, 'm, 'b, 'l) torch"
  shows "map_sum id unseeded (main T opt0 d1 fs ds) = map_sum id unseeded (main T opt0 d2 fs ds)
   \<and> (\<forall>st1. main T opt0 d1 fs ds = Inr st1 \<longrightarrow>
         filter is_seed_line (console st1) = [SeedLine d1]
         \<and> (\<exists>st2. main T opt0 d2 fs ds = Inr st2
               \<and> weights st2 = weights st1 \<and> grads st2 = grads st1
               \<and> opt_lr st2 = opt_lr st1 \<and> opt_buf st2 = opt_buf st1
               \<and> files st2 = files st1 \<and> dirs st2 = dirs st1
               \<and> filter (\<lambda>x. \<not> is_seed_line x) (console st2) =
                   filter (\<lambda>x. \<not> is_seed_line x) (console st1)))"
proof -
  let ?rest = "[Text ''===> Loading datasets'', Text ''===> Building model'',
                Text ''===> Setting GPU''] :: 'l line list"
  let ?core = "case load_resume fs (opt0, DRRN T, ?rest) of
                 Inl e \<Rightarrow> Inl e
               | Inr s1 \<Rightarrow> load_pretrained fs s1"
  let ?st = "\<lambda>d opt w out. \<lparr>weights = w, grads = zero_grad T, training = True, opt_lr = lr opt,
                 opt_buf = SGD T, files = fs, dirs = ds,
                 console = [OptLine opt0, SeedLine d] @ out @
                   [Text ''===> Setting Optimizer'', Text ''===> Training'']\<rparr>"
  have eq: "map_sum id unseeded (main T opt0 d1 fs ds) =
            map_sum id unseeded (main T opt0 d2 fs ds)"
  proof (cases "cuda opt0 \<and> \<not> cuda_is_available T")
    case True
    then show ?thesis by (simp add: main_form)
  next
    case False
    then have nogpu: "(cuda opt0 \<and> \<not> cuda_is_available T) = False" by simp
    show ?thesis
    proof (cases ?core)
      case (Inl err)
      then show ?thesis unfolding main_form nogpu by simp
    next
      case (Inr r)
      obtain opt w out where r: "r = (opt, w, out)" by (cases r)
      have "unseeded (?st d1 opt w out) = unseeded (?st d2 opt w out)"
        by (simp add: unseeded_eq_iff)
      from epoch_loop_unseeded [OF this, of T opt "[start_epoch opt .. nEpochs opt]"] Inr r
      show ?thesis unfolding main_form nogpu by simp
    qed
  qed
  have seed: "filter is_seed_line (console st1) = [SeedLine d1]"
    if run: "main T opt0 d1 fs ds = Inr st1" for st1
  proof -
    from run have nogpu: "(cuda opt0 \<and> \<not> cuda_is_available T) = False"
      by (auto simp: main_form split: if_splits)
    from run obtain opt w out where core: "?core = Inr (opt, w, out)"
      and loop: "epoch_loop T opt [start_epoch opt .. nEpochs opt] (?st d1 opt w out) = Inr st1"
      unfolding main_form nogpu by (cases ?core) auto
    from loads_out [OF core] have "filter is_seed_line out = []" by simp
    with epoch_loop_seed_lines [OF loop] show ?thesis by simp
  qed
  have other: "\<exists>st2. main T opt0 d2 fs ds = Inr st2
               \<and> weights st2 = weights st1 \<and> grads st2 = grads st1
               \<and> opt_lr st2 = opt_lr st1 \<and> opt_buf st2 = opt_buf st1
               \<and> files st2 = files st1 \<and> dirs st2 = dirs st1
               \<and> filter (\<lambda>x. \<not> is_seed_line x) (console st2) =
                   filter (\<lambda>x. \<not> is_seed_line x) (console st1)"
    if "main T opt0 d1 fs ds = Inr st1" for st1
  proof -
    from that eq obtain st2 where "main T opt0 d2 fs ds = Inr st2" "unseeded st1 = unseeded st2"
      by (cases "main T opt0 d2 fs ds") simp_all
    then show ?thesis by (auto simp: unseeded_eq_iff)
  qed
  from eq seed other show ?thesis by blast
qed

theorem C9_seed_unused_witness:
  "map_sum id unseeded (main T_ex opt_ex 1 no_files {}) =
   map_sum id unseeded (main T_ex opt_ex 10000 no_files {})"
  using C9_seed_unused [of T_ex opt_ex 1 no_files "{}" 10000] by blast

subsection \<open>Resuming from a checkpoint\<close>

lemma sgd_respects_eq: "sgd_respects T opt (=)"
  by (simp add: sgd_respects_def)

lemma train_batch_same_model:
  assumes "sgd_respects T opt R" and "same_model R st st'" and "opt_lr st = opt_lr st'"
  shows "rel_sum (=) (\<lambda>s s'. same_model R s s' \<and> opt_lr s = opt_lr s')
           (train_batch T opt l e n it b st) (train_batch T opt l e n' it' b st')"
proof (cases "l = 0")
  case True
  then show ?thesis by (simp add: train_batch_zero_lr)
next
  case False
  from train_batch_fields [OF False, of T opt e n it b st]
  obtain s1 where s1: "train_batch T opt l e n it b st = Inr s1"
    "grads s1 = clip_grad_norm T (clip opt / l) (backward T (weights st) b (zero_grad T))"
    "weights s1 = fst (sgd_step T (opt_lr st) (momentum opt) (weight_decay opt)
                              (weights st) (grads s1) (opt_buf st))"
    "opt_buf s1 = snd (sgd_step T (opt_lr st) (momentum opt) (weight_decay opt)
                              (weights st) (grads s1) (opt_buf st))"
    "opt_lr s1 = opt_lr st"
    by blast
  from train_batch_fields [OF False, of T opt e n' it' b st']
  obtain s2 where s2: "train_batch T opt l e n' it' b st' = Inr s2"
    "grads s2 = clip_grad_norm T (clip opt / l) (backward T (weights st') b (zero_grad T))"
    "weights s2 = fst (sgd_step T (opt_lr st') (momentum opt) (weight_decay opt)
                              (weights st') (grads s2) (opt_buf st'))"
    "opt_buf s2 = snd (sgd_step T (opt_lr st') (momentum opt) (weight_decay opt)
                              (weights st') (grads s2) (opt_buf st'))"
    "opt_lr s2 = opt_lr st'"
    by blast
  from assms(2) have w: "weights st = weights st'" and r: "R (opt_buf st) (opt_buf st')"
    by (simp_all add: same_model_def)
  from w s1(2) s2(2) have g: "grads s1 = grads s2" by simp
  from assms(1) r
  have "fst (sgd_step T (opt_lr st') (momentum opt) (weight_decay opt) (weights st') (grads s2) (opt_buf st)) =
        fst (sgd_step T (opt_lr st') (momentum opt) (weight_decay opt) (weights st') (grads s2) (opt_buf st'))
      \<and> R (snd (sgd_step T (opt_lr st') (momentum opt) (weight_decay opt) (weights st') (grads s2) (opt_buf st)))
           (snd (sgd_step T (opt_lr st') (momentum opt) (weight_decay opt) (weights st') (grads s2) (opt_buf st')))"
    unfolding sgd_respects_def by blast
  with s1(3,4,5) s2(3,4,5) w g assms(3) have "same_model R s1 s2 \<and> opt_lr s1 = opt_lr s2"
    by (simp add: same_model_def)
  with s1(1) s2(1) show ?thesis by simp
qed

lemma train_loop_same_model:
  assumes "sgd_respects T opt R"
  shows "same_model R st st' \<Longrightarrow> opt_lr st = opt_lr st' \<Longrightarrow>
    rel_sum (=) (same_model R)
      (train_loop T opt l e n it bs st) (train_loop T opt l e n' it' bs st')"
proof (induction bs arbitrary: it it' st st')
  case Nil
  then show ?case by simp
next
  case (Cons b bs)
  note step = train_batch_same_model [OF assms Cons.prems, of l e n it b n' it']
  show ?case
  proof (cases "train_batch T opt l e n it b st")
    case (Inl err)
    with step have "train_batch T opt l e n' it' b st' = Inl err"
      by (cases "train_batch T opt l e n' it' b st'") simp_all
    with Inl show ?thesis by simp
  next
    case (Inr s1)
    with step obtain s1' where s1': "train_batch T opt l e n' it' b st' = Inr s1'"
      and eq: "same_model R s1 s1'" "opt_lr s1 = opt_lr s1'"
      by (cases "train_batch T opt l e n' it' b st'") simp_all
    from Cons.IH [OF eq, of "Suc it" "Suc it'"] Inr s1' show ?thesis by simp
  qed
qed

lemma train_same_model:
  assumes "sgd_respects T opt R" and "same_model R st st'"
  shows "rel_sum (=) (same_model R) (train T opt e st) (train T opt e st')"
proof (cases "step opt = 0")
  case True
  then show ?thesis by (simp add: train_zero_step)
next
  case False
  show ?thesis
    unfolding train_eq [OF False]
    by (rule train_loop_same_model [OF assms(1)])
       (use assms(2) in \<open>simp_all add: same_model_def\<close>)
qed

lemma save_checkpoint_same_model:
  "same_model R st st' \<Longrightarrow> same_model R (save_checkpoint e st) (save_checkpoint e' st')"
  by (simp add: same_model_def)

lemma epoch_loop_same_model:
  assumes "sgd_respects T opt R"
  shows "same_model R st st' \<Longrightarrow>
    rel_sum (=) (same_model R) (epoch_loop T opt es st) (epoch_loop T opt es st')"
proof (induction es arbitrary: st st')
  case Nil
  then show ?case by simp
next
  case (Cons e es)
  note step = train_same_model [OF assms Cons.prems, of e]
  show ?case
  proof (cases "train T opt e st")
    case (Inl err)
    with step have "train T opt e st' = Inl err"
      by (cases "train T opt e st'") simp_all
    with Inl show ?thesis by simp
  next
    case (Inr s1)
    with step obtain s1' where s1': "train T opt e st' = Inr s1'"
      and eq: "same_model R s1 s1'"
      by (cases "train T opt e st'") simp_all
    from Cons.IH [OF save_checkpoint_same_model [OF eq]] Inr s1' show ?thesis by simp
  qed
qed

lemma same_model_weights:
  assumes "rel_sum (=) (same_model R) r r'"
  shows "map_sum id weights r = map_sum id weights r'"
  using assms by (cases r; cases r') (simp_all add: same_model_def)

lemma epoch_loop_append:
  "epoch_loop T opt (xs @ ys) st =
     (case epoch_loop T opt xs st of Inl e \<Rightarrow> Inl e | Inr s \<Rightarrow> epoch_loop T opt ys s)"
  by (induction xs arbitrary: st) (simp_all split: sum.splits)

lemma epoch_loop_last_file:
  assumes "epoch_loop T opt (xs @ [k]) st = Inr st'"
  shows "files st' (model_out_path k) =
           Some [''epoch'' \<mapsto> PyInt k, ''model'' \<mapsto> PyModel (weights st')]"
proof -
  from assms obtain s1 s2 where "epoch_loop T opt xs st = Inr s1" "train T opt k s1 = Inr s2"
    and st': "st' = save_checkpoint k s2"
    by (auto simp: epoch_loop_append split: sum.splits)
  show ?thesis
    unfolding st' by (simp add: files_save_checkpoint)
qed

lemma main_fresh:
  fixes T :: "('w, 'g, 'm, 'b, 'l) torch"
  assumes "resume opt = []" and "pretrained opt = []"
    and "\<not> (cuda opt \<and> \<not> cuda_is_available T)"
  shows "\<exists>st0 :: ('w, 'g, 'm, 'l) state.
           main T opt d fs ds = epoch_loop T opt [start_epoch opt .. nEpochs opt] st0
           \<and> weights st0 = DRRN T \<and> opt_buf st0 = SGD T \<and> files st0 = fs \<and> dirs st0 = ds"
proof -
  from assms(3) have nogpu: "(cuda opt \<and> \<not> cuda_is_available T) = False" by simp
  show ?thesis
    unfolding main_form nogpu using assms(1,2)
    by (simp add: load_resume_def load_pretrained_def)
       (rule exI, rule conjI, rule refl, simp)
qed

lemma main_resumed:
  fixes T :: "('w, 'g, 'm, 'b, 'l) torch"
  assumes "resume opt = model_out_path k" and "pretrained opt = []"
    and "\<not> (cuda opt \<and> \<not> cuda_is_available T)"
    and "fs (model_out_path k) = Some [''epoch'' \<mapsto> PyInt k, ''model'' \<mapsto> PyModel w]"
  shows "\<exists>st0 :: ('w, 'g, 'm, 'l) state.
           main T opt d fs ds =
             epoch_loop T (opt\<lparr>start_epoch := k + 1\<rparr>) [k + 1 .. nEpochs opt] st0
           \<and> weights st0 = w \<and> opt_buf st0 = SGD T \<and> files st0 = fs \<and> dirs st0 = ds"
proof -
  from assms(3) have nogpu: "(cuda opt \<and> \<not> cuda_is_available T) = False" by simp
  show ?thesis
    unfolding main_form nogpu using assms(1,2,4)
    by (simp add: load_resume_def load_pretrained_def getitem_def model_out_path_nonempty)
       (rule exI, rule conjI, rule refl, simp)
qed

lemma main_Inr_gpu:
  "main T opt d fs ds = Inr st \<Longrightarrow> \<not> (cuda opt \<and> \<not> cuda_is_available T)"
  by (auto simp: main_def prologue_def split: if_splits)

lemma epoch_loop_returns:
  assumes "step opt \<noteq> 0" and "lr opt \<noteq> 0"
  shows "\<exists>st'. epoch_loop T opt es st = Inr st'"
proof (induction es arbitrary: st)
  case Nil
  then show ?case by simp
next
  case (Cons e es)
  from train_returns [OF assms(1), of T e st] assms(2)
  obtain s1 where "train T opt e st = Inr s1" by blast
  with Cons.IH [of "save_checkpoint e s1"] show ?case by simp
qed

text \<open>
  Claim C3. Let a run without resume or pretrained path train the epochs from the start epoch
  to \<open>k\<close>, writing a checkpoint after each, and end in the state \<open>stA\<close>. The file for
  epoch \<open>k\<close> then holds \<open>k\<close> and the final parameters, and a second run that resumes from
  it and trains to epoch \<open>n \<ge> k\<close> ends with the parameters obtained by training the epochs
  \<open>k + 1, \<dots>, n\<close> from \<open>stA\<close> with a freshly initialized optimizer; the uninterrupted
  run to \<open>n\<close> ends with the parameters obtained by training the same epochs from \<open>stA\<close>
  as it is. The two differ only in the optimizer's momentum buffers at epoch \<open>k + 1\<close>: if
  the SGD step's new parameters do not depend on the buffers, both runs end with the same
  parameters (or fail with the same exception). The data order is the same in both: the
  batches of an epoch are a function of the epoch. The claim's case is \<open>k = 3\<close>,
  \<open>n = 5\<close>, start epoch 1.
\<close>

theorem C3_resume_continuity:
  fixes T :: "('w, 'g, 'm, 'b, 'l) torch"
  assumes "resume opt = []" and "pretrained opt = []"
    and "start_epoch opt \<le> k" and "k \<le> n"
    and "main T (opt\<lparr>nEpochs := k\<rparr>) dA fs ds = Inr stA"
  shows "files stA (model_out_path k) =
           Some [''epoch'' \<mapsto> PyInt k, ''model'' \<mapsto> PyModel (weights stA)]
     \<and> map_sum id weights
         (main T (opt\<lparr>nEpochs := n, resume := model_out_path k\<rparr>) dB (files stA) (dirs stA)) =
       map_sum id weights (epoch_loop T opt [k + 1 .. n] (stA\<lparr>opt_buf := SGD T\<rparr>))
     \<and> map_sum id weights (main T (opt\<lparr>nEpochs := n\<rparr>) dU fs ds) =
       map_sum id weights (epoch_loop T opt [k + 1 .. n] stA)
     \<and> ((\<forall>l w g m m'. fst (sgd_step T l (momentum opt) (weight_decay opt) w g m) =
                        fst (sgd_step T l (momentum opt) (weight_decay opt) w g m')) \<longrightarrow>
         map_sum id weights
           (main T (opt\<lparr>nEpochs := n, resume := model_out_path k\<rparr>) dB (files stA) (dirs stA)) =
         map_sum id weights (main T (opt\<lparr>nEpochs := n\<rparr>) dU fs ds))"
proof -
  let ?s = "start_epoch opt"
  from assms(5) have gpu: "\<not> (cuda opt \<and> \<not> cuda_is_available T)"
    using main_Inr_gpu [of T "opt\<lparr>nEpochs := k\<rparr>" dA fs ds stA] by simp
  have hyper: "epoch_loop T (opt\<lparr>nEpochs := x\<rparr>) es st = epoch_loop T opt es st"
    "epoch_loop T (opt\<lparr>nEpochs := x, resume := y, start_epoch := z\<rparr>) es st = epoch_loop T opt es st"
    for x y z es and st :: "('w, 'g, 'm, 'l) state"
    by (rule epoch_loop_same_hyper, simp add: same_hyper_def)+
  \<comment> \<open>the first leg\<close>
  from main_fresh [of "opt\<lparr>nEpochs := k\<rparr>" T dA fs ds] assms(1,2) gpu
  obtain a0 :: "('w, 'g, 'm, 'l) state" where
    a: "main T (opt\<lparr>nEpochs := k\<rparr>) dA fs ds = epoch_loop T opt [?s .. k] a0"
    and a0: "weights a0 = DRRN T" "opt_buf a0 = SGD T"
    by (auto simp: hyper)
  with assms(5) have legA: "epoch_loop T opt [?s .. k] a0 = Inr stA" by simp
  have "[?s .. k] = [?s .. k - 1] @ [k]"
    using assms(3) by (rule upto_rec2)
  with legA have ckpt: "files stA (model_out_path k) =
      Some [''epoch'' \<mapsto> PyInt k, ''model'' \<mapsto> PyModel (weights stA)]"
    using epoch_loop_last_file [of T opt "[?s .. k - 1]" k a0 stA] by simp
  \<comment> \<open>the resumed run\<close>
  from main_resumed [of "opt\<lparr>nEpochs := n, resume := model_out_path k\<rparr>" k T "files stA"
      "weights stA" dB "dirs stA"] assms(2) gpu ckpt
  obtain b0 :: "('w, 'g, 'm, 'l) state" where
    b: "main T (opt\<lparr>nEpochs := n, resume := model_out_path k\<rparr>) dB (files stA) (dirs stA) =
        epoch_loop T opt [k + 1 .. n] b0"
    and b0: "weights b0 = weights stA" "opt_buf b0 = SGD T"
    by (auto simp: hyper)
  \<comment> \<open>the uninterrupted run\<close>
  from main_fresh [of "opt\<lparr>nEpochs := n\<rparr>" T dU fs ds] assms(1,2) gpu
  obtain u0 :: "('w, 'g, 'm, 'l) state" where
    u: "main T (opt\<lparr>nEpochs := n\<rparr>) dU fs ds = epoch_loop T opt [?s .. n] u0"
    and u0: "weights u0 = DRRN T" "opt_buf u0 = SGD T"
    by (auto simp: hyper)
  have split: "[?s .. n] = [?s .. k] @ [k + 1 .. n]"
    using assms(3,4) by (rule upto_split2)
  from a0 u0 have "same_model (=) u0 a0"
    by (simp add: same_model_def)
  from epoch_loop_same_model [OF sgd_respects_eq this, of T opt "[?s .. k]"] legA
  obtain uk where uk: "epoch_loop T opt [?s .. k] u0 = Inr uk" and uk_a: "same_model (=) uk stA"
    by (cases "epoch_loop T opt [?s .. k] u0") simp_all
  from uk have u': "main T (opt\<lparr>nEpochs := n\<rparr>) dU fs ds = epoch_loop T opt [k + 1 .. n] uk"
    unfolding u split by (simp add: epoch_loop_append)
  have second: "map_sum id weights (main T (opt\<lparr>nEpochs := n\<rparr>) dU fs ds) =
       map_sum id weights (epoch_loop T opt [k + 1 .. n] stA)"
    unfolding u'
    by (rule same_model_weights, rule epoch_loop_same_model [OF sgd_respects_eq uk_a])
  from b0 have sb: "same_model (=) b0 (stA\<lparr>opt_buf := SGD T\<rparr>)"
    by (simp add: same_model_def)
  have first: "map_sum id weights
         (main T (opt\<lparr>nEpochs := n, resume := model_out_path k\<rparr>) dB (files stA) (dirs stA)) =
       map_sum id weights (epoch_loop T opt [k + 1 .. n] (stA\<lparr>opt_buf := SGD T\<rparr>))"
    unfolding b
    by (rule same_model_weights, rule epoch_loop_same_model [OF sgd_respects_eq sb])
  have third: "map_sum id weights
           (main T (opt\<lparr>nEpochs := n, resume := model_out_path k\<rparr>) dB (files stA) (dirs stA)) =
         map_sum id weights (main T (opt\<lparr>nEpochs := n\<rparr>) dU fs ds)"
    if free: "\<forall>l w g m m'. fst (sgd_step T l (momentum opt) (weight_decay opt) w g m) =
                        fst (sgd_step T l (momentum opt) (weight_decay opt) w g m')"
  proof -
    from free have resp: "sgd_respects T opt (\<lambda>m m'. True)"
      by (simp add: sgd_respects_def)
    from b0 have sb': "same_model (\<lambda>m m'. True) b0 stA"
      by (simp add: same_model_def)
    have "map_sum id weights (epoch_loop T opt [k + 1 .. n] b0) =
               map_sum id weights (epoch_loop T opt [k + 1 .. n] stA)"
      by (rule same_model_weights, rule epoch_loop_same_model [OF resp sb'])
    with second show ?thesis unfolding b by simp
  qed
  from ckpt first second third show ?thesis by blast
qed

lemma main_returns:
  fixes T :: "('w, 'g, 'm, 'b, 'l) torch"
  assumes "resume opt = []" and "pretrained opt = []"
    and "\<not> (cuda opt \<and> \<not> cuda_is_available T)"
    and "step opt \<noteq> 0" and "lr opt \<noteq> 0"
  shows "\<exists>st :: ('w, 'g, 'm, 'l) state. main T opt d fs ds = Inr st"
proof -
  from main_fresh [OF assms(1-3), of d fs ds]
  obtain st0 :: "('w, 'g, 'm, 'l) state"
    where "main T opt d fs ds = epoch_loop T opt [start_epoch opt .. nEpochs opt] st0"
    by blast
  with epoch_loop_returns [OF assms(4,5), of T "[start_epoch opt .. nEpochs opt]" st0]
  show ?thesis by simp
qed

theorem C3_resume_continuity_witness:
  "resume opt_plain = [] \<and> pretrained opt_plain = [] \<and> start_epoch opt_plain \<le> 3 \<and> (3::int) \<le> 5
   \<and> (\<exists>stA. main T_ex (opt_plain\<lparr>nEpochs := 3\<rparr>) 1 no_files {} = Inr stA
         \<and> map_sum id weights
             (main T_ex (opt_plain\<lparr>nEpochs := 5, resume := model_out_path 3\<rparr>) 2 (files stA) (dirs stA)) =
           map_sum id weights (main T_ex (opt_plain\<lparr>nEpochs := 5\<rparr>) 3 no_files {}))"
proof -
  have h: "resume opt_plain = []" "pretrained opt_plain = []" "start_epoch opt_plain \<le> 3"
    "(3::int) \<le> 5"
    by (simp_all add: opt_plain_def opt_ex_def)
  have "\<exists>stA :: (rat, rat, rat, rat) state. main T_ex (opt_plain\<lparr>nEpochs := 3\<rparr>) 1 no_files {} = Inr stA"
    by (rule main_returns) (simp_all add: opt_plain_def opt_ex_def)
  then obtain stA where stA: "main T_ex (opt_plain\<lparr>nEpochs := 3\<rparr>) 1 no_files {} = Inr stA"
    by blast
  have free: "\<forall>l w g m m'.
      fst (sgd_step T_ex l (momentum opt_plain) (weight_decay opt_plain) w g m) =
      fst (sgd_step T_ex l (momentum opt_plain) (weight_decay opt_plain) w g m')"
    by (simp add: T_ex_def opt_plain_def opt_ex_def)
  from C3_resume_continuity [OF h stA, of 2 3] free stA h show ?thesis
    by blast
qed

text \<open>
  The proviso on the momentum buffers is needed: with the default momentum of 0.9 the
  resumed run and the uninterrupted run of the example end with different parameters.
\<close>

lemma resumed_run_with_momentum_differs:
  "map_sum id weights (interrupted_run opt_ex) \<noteq>
   map_sum id weights (main T_ex (opt_ex\<lparr>nEpochs := 2\<rparr>) 3 no_files {})"
  by code_simp

end
